theory Spec2Isabelle
  imports Complex_Main "HOL-Library.Log_Nat"
begin

section \<open>Errors\<close>

text \<open>
  The Python exceptions that the modelled functions can raise, followed by the three
  error kinds that the specification names (\<open>InvalidInput\<close>, \<open>DegenerateInput\<close>,
  \<open>ShapeMismatch\<close>). No function of the source raises one of the latter three; they are
  part of the type so that statements about them can be written down.
\<close>

datatype error =
    ZeroDivisionError
  | IndexError
  | KeyError
  | AxisError
  | ValueError
  | OverflowError
  | InvalidInput
  | DegenerateInput
  | ShapeMismatch

text \<open>
  A list comprehension \<open>[f(i) for i in xs]\<close> evaluates \<open>f\<close> from left to right and is
  abandoned by the first exception.
\<close>

primrec comprehension :: "('a \<Rightarrow> error + 'b) \<Rightarrow> 'a list \<Rightarrow> error + 'b list" where
  "comprehension f [] = Inr []"
| "comprehension f (x # xs) =
     (case f x of
        Inl e \<Rightarrow> Inl e
      | Inr y \<Rightarrow> (case comprehension f xs of Inl e \<Rightarrow> Inl e | Inr ys \<Rightarrow> Inr (y # ys)))"

section \<open>Timestamps: \<open>datetime\<close> and \<open>timedelta\<close>\<close>

text \<open>
  A \<open>datetime\<close> is its number of microseconds since the first representable instant and a
  \<open>timedelta\<close> is a number of microseconds, both of integer resolution as in Python.
  The model starts after \<open>datetime.fromisoformat\<close> has parsed both session bounds and
  leaves out the range limits of the two types (years 1 to 9999, a billion days), which a
  one-night session does not reach.
\<close>

type_synonym datetime = int
type_synonym timedelta = int

text \<open>
  \<open>_divide_and_round(a, b)\<close> of the \<open>datetime\<close> module: the integer nearest to \<open>a / b\<close>,
  the even one on a tie. \<open>div\<close> and \<open>mod\<close> on \<open>int\<close> round towards minus infinity as
  Python's \<open>divmod\<close> does.
\<close>

definition divide_and_round :: "int \<Rightarrow> int \<Rightarrow> int" where
  "divide_and_round a b =
     (let q = a div b;
          r = 2 * (a mod b);
          greater_than_half = (if 0 < b then b < r else r < b)
      in if greater_than_half \<or> (r = b \<and> q mod 2 = 1) then q + 1 else q)"

text \<open>\<open>timedelta / int\<close>: \<open>divmod\<close> by zero raises.\<close>

definition td_truediv :: "timedelta \<Rightarrow> int \<Rightarrow> error + timedelta" where
  "td_truediv d k = (if k = 0 then Inl ZeroDivisionError else Inr (divide_and_round d k))"

text \<open>
  The alignment of \<open>sleep_quality_analysis\<close>, the same line in its four chart functions:
  \<open>times = [start + (end - start) * i/(n-1) for i in range(n)]\<close>.
  \<open>*\<close> and \<open>/\<close> associate to the left, so the product with \<open>i\<close> (exact) is divided by
  \<open>n - 1\<close>.
\<close>

definition aligned_times :: "datetime \<Rightarrow> datetime \<Rightarrow> nat \<Rightarrow> error + datetime list" where
  "aligned_times start end n =
     comprehension
       (\<lambda>i. case td_truediv ((end - start) * int i) (int n - 1) of
               Inl e \<Rightarrow> Inl e
             | Inr d \<Rightarrow> Inr (start + d))
       [0..<n]"

section \<open>Binary64 arithmetic\<close>

text \<open>
  Python's \<open>float\<close> is IEEE binary64. A finite float is the rational number it denotes,
  and every arithmetic operation returns the exact result rounded to the nearest float,
  the one with an even significand on a tie. \<open>fl64\<close> is that rounding: the result is a
  multiple of \<open>2 ^ e\<close>, where \<open>e\<close> is the exponent of the last of the 53 significand
  bits, and at least \<open>- 1074\<close> (subnormal numbers). Overflow is not part of \<open>fl64\<close>:
  where the source can reach \<open>2 ^ 1024\<close> the caller below tests for it.
\<close>

definition round_half_even :: "rat \<Rightarrow> int" where
  "round_half_even x =
     (let f = \<lfloor>x\<rfloor>; d = x - of_int f
      in if d < 1 / 2 then f else if 1 / 2 < d then f + 1 else if even f then f else f + 1)"

text \<open>\<open>ilog2 q\<close> is the integer part of the binary logarithm of a positive \<open>q\<close>.\<close>

definition ilog2 :: "rat \<Rightarrow> int" where
  "ilog2 q = (let (a, b) = quotient_of q; k = bitlen a - bitlen b
              in if 2 powi k \<le> q then k else k - 1)"

definition fl64 :: "rat \<Rightarrow> rat" where
  "fl64 q = (if q = 0 then 0
             else let e = max (ilog2 \<bar>q\<bar> - 52) (- 1074)
                  in of_int (round_half_even (q / 2 powi e)) * 2 powi e)"

text \<open>\<open>int / int\<close>: the correctly rounded quotient; a zero divisor raises.\<close>

definition int_truediv :: "int \<Rightarrow> int \<Rightarrow> error + rat" where
  "int_truediv a b = (if b = 0 then Inl ZeroDivisionError else Inr (fl64 (of_int a / of_int b)))"

text \<open>\<open>float(n)\<close> of an \<open>int\<close>, as the format code \<open>f\<close> applies it to an integer argument.\<close>

definition float_of_int :: "int \<Rightarrow> error + rat" where
  "float_of_int n = (let y = fl64 (of_int n) in if 2 ^ 1024 \<le> \<bar>y\<bar> then Inl OverflowError else Inr y)"

section \<open>Text of numbers\<close>

text \<open>\<open>str(n)\<close> of a non-negative \<open>int\<close>.\<close>

fun str_nat :: "nat \<Rightarrow> string" where
  "str_nat n = (if n < 10 then [char_of (48 + n)] else str_nat (n div 10) @ [char_of (48 + n mod 10)])"

declare str_nat.simps [simp del]

text \<open>
  \<open>format(x, '.1f')\<close> and \<open>format(x, '.0f')\<close> of a non-negative float: the exact value of
  the float is rounded to the nearest number with one (no) decimal, half to even. The
  first is kept as a number of tenths, which \<open>text_1f\<close> prints.
\<close>

definition tenths_1f :: "rat \<Rightarrow> nat" where
  "tenths_1f x = nat (round_half_even (x * 10))"

definition text_1f :: "nat \<Rightarrow> string" where
  "text_1f t = str_nat (t div 10) @ ''.'' @ str_nat (t mod 10)"

definition text_0f :: "rat \<Rightarrow> string" where
  "text_0f x = str_nat (nat (round_half_even x))"

section \<open>The session record and the charts\<close>

text \<open>
  The dictionary \<open>sleep_data\<close> with the keys the functions read. The two timestamps are
  held as parsed. \<open>sleep_stages\<close> is a dictionary from stage names to minutes, kept as
  an association list in insertion order; the durations are whole non-negative minutes,
  as in the test data of the repository.
\<close>

record sleep_session =
  start_time :: datetime
  end_time :: datetime
  heart_rate :: "real list"
  hrv :: "real list"
  spo2 :: "real list"
  wrist_temp :: "real list"
  sleep_stages :: "(string \<times> nat) list"
  date :: string

text \<open>
  What a chart function hands to the plotting library before the figure is encoded:
  the points of the line, the title, and the axis limits it sets.
\<close>

record line_chart =
  chart_title :: string
  x_data :: "datetime list"
  y_data :: "real list"
  xlim :: "(datetime \<times> datetime) option"
  ylim :: "(real \<times> real) option"

record pie_chart =
  pie_title :: string
  sizes :: "nat list"
  labels :: "string list"

subsection \<open>\<open>sleep_quality_analysis\<close>: the four line charts\<close>

definition generate_hr_chart :: "sleep_session \<Rightarrow> error + line_chart" where
  "generate_hr_chart sleep_data =
     (let start = start_time sleep_data;
          end = end_time sleep_data;
          hr = heart_rate sleep_data;
          n = length hr
      in case aligned_times start end n of
           Inl e \<Rightarrow> Inl e
         | Inr timestamps \<Rightarrow>
             Inr \<lparr>chart_title = ''Heart Rate (BPM)'', x_data = timestamps, y_data = hr,
                  xlim = Some (start, end), ylim = None\<rparr>)"

definition generate_hrv_chart :: "sleep_session \<Rightarrow> error + line_chart" where
  "generate_hrv_chart sleep_data =
     (let start = start_time sleep_data;
          end = end_time sleep_data;
          hrv' = hrv sleep_data;
          n = length hrv' 
      in case aligned_times start end n of
           Inl e \<Rightarrow> Inl e
         | Inr timestamps \<Rightarrow>
             Inr \<lparr>chart_title = ''HRV'', x_data = timestamps, y_data = hrv',
                  xlim = Some (start, end), ylim = None\<rparr>)"

definition generate_spo2_chart :: "sleep_session \<Rightarrow> error + line_chart" where
  "generate_spo2_chart sleep_data =
     (let start = start_time sleep_data;
          end = end_time sleep_data;
          spo2' = spo2 sleep_data;
          n = length spo2' 
      in case aligned_times start end n of
           Inl e \<Rightarrow> Inl e
         | Inr timestamps \<Rightarrow>
             Inr \<lparr>chart_title = ''SpO2 (%)'', x_data = timestamps, y_data = spo2',
                  xlim = Some (start, end), ylim = Some (80, 100)\<rparr>)"

text \<open>
  The title of the temperature chart contains a degree sign, U+00B0, held here as the two
  bytes of its UTF-8 encoding.
\<close>

definition generate_temp_chart :: "sleep_session \<Rightarrow> error + line_chart" where
  "generate_temp_chart sleep_data =
     (let start = start_time sleep_data;
          end = end_time sleep_data;
          temp = wrist_temp sleep_data;
          n = length temp
      in case aligned_times start end n of
           Inl e \<Rightarrow> Inl e
         | Inr timestamps \<Rightarrow>
             Inr \<lparr>chart_title = ''Wrist Temperature ('' @ [CHR 0xC2, CHR 0xB0] @ ''C)'',
                  x_data = timestamps, y_data = temp,
                  xlim = Some (start, end), ylim = None\<rparr>)"

text \<open>The four functions with the channel each one draws.\<close>

definition analysis_line_charts ::
  "((sleep_session \<Rightarrow> error + line_chart) \<times> (sleep_session \<Rightarrow> real list)) list" where
  "analysis_line_charts =
     [(generate_hr_chart, heart_rate), (generate_hrv_chart, hrv),
      (generate_spo2_chart, spo2), (generate_temp_chart, wrist_temp)]"

subsection \<open>\<open>SleepQualityVisualizer.generate_heart_rate_chart\<close>\<close>

text \<open>
  \<open>(end - start).total_seconds()\<close> is the true quotient of the microseconds by \<open>10 ** 6\<close>.
\<close>

definition total_seconds :: "timedelta \<Rightarrow> rat" where
  "total_seconds d = fl64 (of_int d / 1000000)"

text \<open>
  \<open>timedelta(hours=h)\<close> for a float \<open>h\<close>: the whole hours are converted exactly, the
  fractional part is multiplied by the microseconds of an hour in float arithmetic, and
  the sum is rounded to a whole microsecond, half to even.
\<close>

definition timedelta_hours :: "rat \<Rightarrow> timedelta" where
  "timedelta_hours h =
     (let intpart = (if 0 \<le> h then \<lfloor>h\<rfloor> else \<lceil>h\<rceil>);
          fracpart = h - of_int intpart
      in round_half_even (of_int (intpart * 3600000000) + fl64 (3600000000 * fracpart)))"

text \<open>
  \<open>duration = (end - start).total_seconds() / 3600\<close>,
  \<open>times = [start + timedelta(hours=duration * i / len(hr)) for i in range(len(hr))]\<close>.
  The rolling mean that the function draws as a second line over the same \<open>times\<close> is
  left out.
\<close>

definition generate_heart_rate_chart :: "sleep_session \<Rightarrow> error + line_chart" where
  "generate_heart_rate_chart sleep_data =
     (let hr = heart_rate sleep_data;
          start = start_time sleep_data;
          end = end_time sleep_data;
          duration = fl64 (total_seconds (end - start) / 3600);
          timestamps = map (\<lambda>i. start + timedelta_hours
                                      (fl64 (fl64 (duration * of_nat i) / of_nat (length hr))))
                    [0..<length hr]
      in Inr \<lparr>chart_title = ''Heart Rate During Sleep'', x_data = timestamps, y_data = hr,
               xlim = None, ylim = None\<rparr>)"

subsection \<open>The stage breakdown\<close>

text \<open>\<open>stages.get(stage, 0)\<close> and \<open>stages[stage]\<close>.\<close>

definition get_or_0 :: "(string \<times> nat) list \<Rightarrow> string \<Rightarrow> nat" where
  "get_or_0 stages stage = (case map_of stages stage of None \<Rightarrow> 0 | Some dur \<Rightarrow> dur)"

definition getitem :: "(string \<times> nat) list \<Rightarrow> string \<Rightarrow> error + nat" where
  "getitem stages stage = (case map_of stages stage of None \<Rightarrow> Inl KeyError | Some dur \<Rightarrow> Inr dur)"

text \<open>
  The percentage that both renderers put into a label, \<open>dur/total*100\<close> under \<open>:.1f\<close>, as a
  number of tenths of a percent.
\<close>

definition percent_tenths :: "nat \<Rightarrow> nat \<Rightarrow> error + nat" where
  "percent_tenths dur total' =
     (case int_truediv (int dur) (int total') of
        Inl e \<Rightarrow> Inl e
      | Inr q \<Rightarrow> Inr (tenths_1f (fl64 (q * 100))))"

text \<open>\<open>f"{stage.title()}: {dur}m ({dur/total*100:.1f}%)"\<close> of \<open>sleep_quality_analysis\<close>.\<close>

definition analysis_label_text :: "string \<Rightarrow> nat \<Rightarrow> nat \<Rightarrow> string" where
  "analysis_label_text name dur t = name @ '': '' @ str_nat dur @ ''m ('' @ text_1f t @ ''%)''"

definition analysis_label :: "string \<Rightarrow> nat \<Rightarrow> nat \<Rightarrow> error + string" where
  "analysis_label name dur total' =
     (case percent_tenths dur total' of
        Inl e \<Rightarrow> Inl e
      | Inr t \<Rightarrow> Inr (analysis_label_text name dur t))"

text \<open>
  \<open>generate_sleep_stage_pie_chart\<close>: the loop runs over the four stage names in a fixed
  order and appends one label and one size each; \<open>str.title\<close> of the four names is
  written out.
\<close>

definition generate_sleep_stage_pie_chart :: "sleep_session \<Rightarrow> error + pie_chart" where
  "generate_sleep_stage_pie_chart sleep_data =
     (let stages = sleep_stages sleep_data;
          total' = sum_list (map snd stages)
      in case comprehension
                (\<lambda>(stage, titled). analysis_label titled (get_or_0 stages stage) total')
                [(''deep'', ''Deep''), (''rem'', ''Rem''), (''light'', ''Light''), (''awake'', ''Awake'')] of
           Inl e \<Rightarrow> Inl e
         | Inr ls \<Rightarrow>
             Inr \<lparr>pie_title = ''Sleep Stages Breakdown - '' @ date sleep_data,
                  sizes = map (get_or_0 stages) [''deep'', ''rem'', ''light'', ''awake''],
                  labels = ls\<rparr>)"

text \<open>
  \<open>f"Deep: {stages['deep']:.0f}m ({stages['deep']/total*100:.1f}%)"\<close> of the visualizer:
  the lookup, then its conversion to a float for \<open>:.0f\<close>, then the percentage.
\<close>

definition structure_label_text :: "string \<Rightarrow> rat \<Rightarrow> nat \<Rightarrow> string" where
  "structure_label_text name x t = name @ '': '' @ text_0f x @ ''m ('' @ text_1f t @ ''%)''"

definition structure_label :: "(string \<times> nat) list \<Rightarrow> nat \<Rightarrow> string \<times> string \<Rightarrow> error + string" where
  "structure_label stages total' = (\<lambda>(stage, name).
     case getitem stages stage of
       Inl e \<Rightarrow> Inl e
     | Inr dur \<Rightarrow>
         (case float_of_int (int dur) of
            Inl e \<Rightarrow> Inl e
          | Inr x \<Rightarrow>
              (case percent_tenths dur total' of
                 Inl e \<Rightarrow> Inl e
               | Inr t \<Rightarrow> Inr (structure_label_text name x t))))"

definition generate_sleep_structure_chart :: "sleep_session \<Rightarrow> error + pie_chart" where
  "generate_sleep_structure_chart sleep_data =
     (let stages = sleep_stages sleep_data;
          total' = sum_list (map snd stages)
      in case comprehension (structure_label stages total')
                [(''deep'', ''Deep''), (''rem'', ''REM''), (''light'', ''Light''), (''awake'', ''Awake'')] of
           Inl e \<Rightarrow> Inl e
         | Inr ls \<Rightarrow>
             (case comprehension (getitem stages) [''deep'', ''rem'', ''light'', ''awake''] of
                Inl e \<Rightarrow> Inl e
              | Inr ds \<Rightarrow>
                  Inr \<lparr>pie_title = ''Sleep Structure - '' @ date sleep_data,
                       sizes = ds, labels = ls\<rparr>))"

section \<open>The convolutional regressor\<close>

text \<open>
  A NumPy array of rank one to three, the ranks that the weights and activations of a
  one-dimensional network have: its shape and its elements by index. The elements are
  real numbers; the rounding of \<open>float32\<close> arithmetic is not modelled in this section.
\<close>

datatype ndarray =
    Arr1 nat "nat \<Rightarrow> real"
  | Arr2 nat nat "nat \<Rightarrow> nat \<Rightarrow> real"
  | Arr3 nat nat nat "nat \<Rightarrow> nat \<Rightarrow> nat \<Rightarrow> real"

datatype activation = Relu | Linear

datatype padding = Same | Valid

text \<open>
  The Keras layers that \<open>build_sleep_cnn\<close> uses. \<open>InputLayer l c\<close> declares the shape
  \<open>(l, c)\<close>. \<open>Conv1D filters kernel_size c a p w b\<close> is a convolution over \<open>c\<close> input
  channels with kernel \<open>w\<close> of shape \<open>(kernel_size, c, filters)\<close> and bias \<open>b\<close>;
  \<open>Dense units c a w b\<close> has a kernel of shape \<open>(c, units)\<close>.
\<close>

datatype layer =
    InputLayer nat nat
  | Conv1D nat nat nat activation padding "nat \<Rightarrow> nat \<Rightarrow> nat \<Rightarrow> real" "nat \<Rightarrow> real"
  | MaxPooling1D nat
  | GlobalAveragePooling1D
  | Dense nat nat activation "nat \<Rightarrow> nat \<Rightarrow> real" "nat \<Rightarrow> real"

record model =
  layers :: "layer list"

fun get_weights :: "layer \<Rightarrow> ndarray list" where
  "get_weights (Conv1D filters kernel_size c a p w b) = [Arr3 kernel_size c filters w, Arr1 filters b]"
| "get_weights (Dense units c a w b) = [Arr2 c units w, Arr1 units b]"
| "get_weights (InputLayer l c) = []"
| "get_weights (MaxPooling1D pool_size) = []"
| "get_weights GlobalAveragePooling1D = []"

subsection \<open>\<open>build_sleep_cnn\<close>\<close>

text \<open>
  The values that the kernel initialisers draw when the layers are created; the biases
  start at zero.
\<close>

record initial_weights =
  conv1_kernel :: "nat \<Rightarrow> nat \<Rightarrow> nat \<Rightarrow> real"
  conv2_kernel :: "nat \<Rightarrow> nat \<Rightarrow> nat \<Rightarrow> real"
  dense_kernel :: "nat \<Rightarrow> nat \<Rightarrow> real"

text \<open>
  \<open>model.layers\<close> of a functional model lists the input layer first. The pooling
  window of two has to fit into the time axis, so shorter inputs are rejected while the
  graph is built.
\<close>

definition build_sleep_cnn :: "nat \<Rightarrow> nat \<Rightarrow> initial_weights \<Rightarrow> error + model" where
  "build_sleep_cnn input_length channels init =
     (if input_length < 2 then Inl ValueError
      else Inr \<lparr>layers =
        [InputLayer input_length channels,
         Conv1D 32 5 channels Relu Same (conv1_kernel init) (\<lambda>_. 0),
         MaxPooling1D 2,
         Conv1D 64 5 32 Relu Same (conv2_kernel init) (\<lambda>_. 0),
         GlobalAveragePooling1D,
         Dense 1 64 Linear (dense_kernel init) (\<lambda>_. 0)]\<rparr>)"

subsection \<open>\<open>compute_channel_importance\<close>\<close>

text \<open>
  A NumPy float: division by zero does not raise, it yields an infinity or, for
  \<open>0 / 0\<close>, not-a-number.
\<close>

datatype npfloat = Finite real | PosInf | NegInf | NaN

definition np_divide :: "real \<Rightarrow> real \<Rightarrow> npfloat" where
  "np_divide a b =
     (if b = 0 then (if a = 0 then NaN else if 0 < a then PosInf else NegInf)
      else Finite (a / b))"

text \<open>\<open>np.sum(np.abs(w), axis=(0,2))\<close> of an array of shape \<open>(k, c, f)\<close>, as a list of \<open>c\<close> sums.\<close>

definition abs_sum_axes_0_2 ::
  "nat \<Rightarrow> nat \<Rightarrow> nat \<Rightarrow> (nat \<Rightarrow> nat \<Rightarrow> nat \<Rightarrow> real) \<Rightarrow> real list" where
  "abs_sum_axes_0_2 k c f w = map (\<lambda>j. \<Sum>i\<leftarrow>[0..<k]. \<Sum>out\<leftarrow>[0..<f]. \<bar>w i j out\<bar>) [0..<c]"

definition names :: "string list" where
  "names = [''heart_rate'', ''hrv'', ''spo2'', ''wrist_temp'']"

text \<open>
  \<open>w = cnn_model.layers[1].get_weights()[0]\<close>: both subscripts raise \<open>IndexError\<close> out
  of range. Summing over axis 2 needs a rank of three. \<open>norms[i]\<close> is read for the four
  names and raises \<open>IndexError\<close> on a shorter \<open>norms\<close>. The result is the dictionary
  in insertion order.
\<close>

definition compute_channel_importance :: "model \<Rightarrow> error + (string \<times> npfloat) list" where
  "compute_channel_importance cnn_model =
     (case layers cnn_model of
        _ # layer1 # _ \<Rightarrow>
          (case get_weights layer1 of
             w # _ \<Rightarrow>
               (case w of
                  Arr3 k c f ker \<Rightarrow>
                    (let abs_sum = abs_sum_axes_0_2 k c f ker;
                         norms = map (\<lambda>a. np_divide a (sum_list abs_sum)) abs_sum
                     in comprehension
                          (\<lambda>i. if i < length norms then Inr (names ! i, norms ! i) else Inl IndexError)
                          [0..<length names])
                | _ \<Rightarrow> Inl AxisError)
           | [] \<Rightarrow> Inl IndexError)
      | _ \<Rightarrow> Inl IndexError)"

text \<open>Running a function on the result of another one, as far as no exception was raised.\<close>

definition and_then :: "error + 'a \<Rightarrow> ('a \<Rightarrow> error + 'b) \<Rightarrow> error + 'b" where
  "and_then r f = (case r of Inl e \<Rightarrow> Inl e | Inr v \<Rightarrow> f v)"

section \<open>Example inputs\<close>

text \<open>
  The night of the repository's test scripts, from 2025-05-05 22:00 to 2025-05-06 06:00
  (as microseconds since 0001-01-01 00:00), with four samples per channel.
\<close>

definition test_night :: sleep_session where
  "test_night =
     \<lparr>start_time = 63882079200000000, end_time = 63882108000000000,
      heart_rate = [60, 65, 60, 55], hrv = [58, 50, 42, 50],
      spo2 = [98, 98, 98, 98], wrist_temp = [36, 37, 36, 37],
      sleep_stages = [(''deep'', 90), (''rem'', 80), (''light'', 200), (''awake'', 10)],
      date = ''2025-05-06''\<rparr>"

text \<open>Initial weights that are all one, and all zero.\<close>

definition ones_weights :: initial_weights where
  "ones_weights =
     \<lparr>conv1_kernel = (\<lambda>_ _ _. 1), conv2_kernel = (\<lambda>_ _ _. 1), dense_kernel = (\<lambda>_ _. 1)\<rparr>"

definition zero_weights :: initial_weights where
  "zero_weights =
     \<lparr>conv1_kernel = (\<lambda>_ _ _. 0), conv2_kernel = (\<lambda>_ _ _. 0), dense_kernel = (\<lambda>_ _. 0)\<rparr>"

text \<open>The model that the test script builds, with all initial weights one.\<close>

definition test_cnn :: model where
  "test_cnn = (case build_sleep_cnn 480 4 ones_weights of Inr m \<Rightarrow> m | Inl e \<Rightarrow> \<lparr>layers = []\<rparr>)"

text \<open>
  A model with the layers of \<open>build_sleep_cnn\<close> in which a pooling layer comes before
  the only convolution, which has four input channels.
\<close>

definition pool_first_model :: model where
  "pool_first_model =
     \<lparr>layers =
        [InputLayer 480 4,
         MaxPooling1D 2,
         Conv1D 32 5 4 Relu Same (\<lambda>_ _ _. 1) (\<lambda>_. 0),
         GlobalAveragePooling1D,
         Dense 1 32 Linear (\<lambda>_ _. 1) (\<lambda>_. 0)]\<rparr>"

text \<open>
  A convolution of kernel width one with two filters: the first filter reads the heart
  rate only, the second one the three other channels. \<open>two_filter_model s\<close> has output
  channel \<open>out\<close> of that kernel multiplied by \<open>s out\<close>.
\<close>

definition two_filter_kernel :: "nat \<Rightarrow> nat \<Rightarrow> nat \<Rightarrow> real" where
  "two_filter_kernel i j out = (if out = 0 then (if j = 0 then 1 else 0) else (if j = 0 then 0 else 1))"

definition two_filter_model :: "(nat \<Rightarrow> real) \<Rightarrow> model" where
  "two_filter_model s =
     \<lparr>layers =
        [InputLayer 480 4,
         Conv1D 2 1 4 Relu Same (\<lambda>i j out. s out * two_filter_kernel i j out) (\<lambda>_. 0),
         GlobalAveragePooling1D,
         Dense 1 2 Linear (\<lambda>_ _. 1) (\<lambda>_. 0)]\<rparr>"

definition unscaled :: "nat \<Rightarrow> real" where
  "unscaled out = 1"

definition first_filter_tripled :: "nat \<Rightarrow> real" where
  "first_filter_tripled out = (if out = 0 then 3 else 1)"

definition second_filter_negated :: "nat \<Rightarrow> real" where
  "second_filter_negated out = (if out = 0 then 2 else - 2)"

section \<open>The time axis\<close>

subsection \<open>List comprehensions\<close>

lemma comprehension_total:
  "(\<And>v. v \<in> set vs \<Longrightarrow> f v = Inr (g v)) \<Longrightarrow> comprehension f vs = Inr (map g vs)"
  by (induction vs) simp_all

subsection \<open>Rounding division\<close>

lemma divide_and_round_zero: "divide_and_round 0 b = 0"
  by (simp add: divide_and_round_def)

lemma divide_and_round_exact:
  assumes "b \<noteq> 0"
  shows "divide_and_round (b * k) b = k"
  using assms by (simp add: divide_and_round_def)

text \<open>The rounded quotient is within half a unit of the exact one.\<close>

lemma divide_and_round_bounds:
  assumes "0 < b"
  shows "2 * a - b \<le> 2 * (b * divide_and_round a b)"
    and "2 * (b * divide_and_round a b) \<le> 2 * a + b"
proof -
  define q r z where "q = a div b" and "r = a mod b" and "z = divide_and_round a b"
  have a: "a = b * q + r" and r: "0 \<le> r" "r < b"
    using assms by (simp_all add: q_def r_def)
  have z: "z = (if b < 2 * r \<or> (2 * r = b \<and> q mod 2 = 1) then q + 1 else q)"
    using assms by (simp add: z_def divide_and_round_def q_def r_def Let_def)
  have "2 * a - b \<le> 2 * (b * z) \<and> 2 * (b * z) \<le> 2 * a + b"
  proof (cases "b < 2 * r \<or> (2 * r = b \<and> q mod 2 = 1)")
    case True
    then have "b * z = b * q + b" by (simp add: z algebra_simps)
    with True a r show ?thesis by auto
  next
    case False
    then have "z = q" by (simp only: z if_False)
    with False a r show ?thesis by auto
  qed
  then show "2 * a - b \<le> 2 * (b * divide_and_round a b)"
    and "2 * (b * divide_and_round a b) \<le> 2 * a + b"
    by (simp_all add: z_def)
qed

lemma divide_and_round_near:
  assumes "0 < b"
  shows "2 * \<bar>b * divide_and_round a b - a\<bar> \<le> b"
  using divide_and_round_bounds[OF assms, of a] by arith

lemma divide_and_round_mono:
  assumes "0 < b" "a \<le> a'"
  shows "divide_and_round a b \<le> divide_and_round a' b"
proof (rule ccontr)
  assume less: "\<not> ?thesis"
  then have "divide_and_round a' b + 1 \<le> divide_and_round a b" by simp
  then have "b * (divide_and_round a' b + 1) \<le> b * divide_and_round a b"
    using assms(1) by (simp only: mult_le_cancel_left_pos)
  then have "2 * (b * divide_and_round a' b) + 2 * b \<le> 2 * (b * divide_and_round a b)"
    by (simp add: algebra_simps)
  with divide_and_round_bounds[OF assms(1), of a] divide_and_round_bounds[OF assms(1), of a']
  have "a' \<le> a" by presburger
  with assms(2) have "a = a'" by simp
  with less show False by simp
qed

text \<open>
  Two dividends that are a divisor or more apart have different rounded quotients. At a
  distance of exactly the divisor this is not so in general (3/2 and 5/2 both round to
  2), but the dividends of the alignment are then multiples of the divisor.
\<close>

lemma divide_and_round_strict:
  assumes "0 < b" "b \<le> d"
  shows "divide_and_round (d * i) b < divide_and_round (d * i + d) b"
proof (cases "d = b")
  case True
  have "divide_and_round (b * i) b = i" "divide_and_round (b * (i + 1)) b = i + 1"
    using assms(1) by (simp_all add: divide_and_round_exact)
  then show ?thesis using True by (simp add: algebra_simps)
next
  case False
  then have lt: "b < d" using assms by simp
  define x where "x = d * i"
  define u v where "u = b * divide_and_round x b" and "v = b * divide_and_round (x + d) b"
  have "2 * u \<le> 2 * x + b"
    unfolding u_def by (rule divide_and_round_bounds(2)[OF assms(1)])
  moreover have "2 * (x + d) - b \<le> 2 * v"
    unfolding v_def by (rule divide_and_round_bounds(1)[OF assms(1)])
  ultimately have "u < v" using lt by presburger
  then have "divide_and_round x b < divide_and_round (x + d) b"
    using assms(1) unfolding u_def v_def by (simp only: mult_less_cancel_left_pos)
  then show ?thesis by (simp add: x_def)
qed

subsection \<open>The aligned timestamps\<close>

lemma aligned_times_Inr:
  assumes "n \<noteq> 1"
  shows "aligned_times start end n =
         Inr (map (\<lambda>i. start + divide_and_round ((end - start) * int i) (int n - 1)) [0..<n])"
  unfolding aligned_times_def
  by (rule comprehension_total) (use assms in \<open>auto simp: td_truediv_def\<close>)

lemma aligned_times_one: "aligned_times start end 1 = Inl ZeroDivisionError"
  by (simp add: aligned_times_def td_truediv_def)

lemma aligned_times_hd:
  assumes "2 \<le> n"
  shows "hd (map (\<lambda>i. start + divide_and_round ((end - start) * int i) (int n - 1)) [0..<n]) = start"
proof -
  have "[0..<n] = 0 # [1..<n]" using assms by (simp add: upt_conv_Cons)
  then show ?thesis by (simp add: divide_and_round_zero)
qed

lemma aligned_times_last:
  assumes "2 \<le> n"
  shows "last (map (\<lambda>i. start + divide_and_round ((end - start) * int i) (int n - 1)) [0..<n]) = end"
proof -
  obtain m where m: "n = Suc m" "1 \<le> m" using assms by (cases n) auto
  have "int n - 1 = int m" using m by simp
  moreover have "divide_and_round ((end - start) * int m) (int m) = end - start"
    using divide_and_round_exact[of "int m" "end - start"] m by (simp add: mult.commute)
  ultimately show ?thesis using m by simp
qed

text \<open>The four chart functions differ in the title and the y-limits only.\<close>

lemma analysis_chart_cases:
  assumes "(g, ch) \<in> set analysis_line_charts"
  shows "\<exists>t yl. g = (\<lambda>s. case aligned_times (start_time s) (end_time s) (length (ch s)) of
             Inl e \<Rightarrow> Inl e
           | Inr ts \<Rightarrow> Inr \<lparr>chart_title = t, x_data = ts, y_data = ch s,
                 xlim = Some (start_time s, end_time s), ylim = yl\<rparr>)"
  using assms
  unfolding analysis_line_charts_def generate_hr_chart_def generate_hrv_chart_def
    generate_spo2_chart_def generate_temp_chart_def Let_def
  by auto

lemma analysis_chart_x_data:
  assumes "(g, ch) \<in> set analysis_line_charts" "length (ch s) \<noteq> 1"
  shows "\<exists>c. g s = Inr c \<and>
     x_data c = map (\<lambda>i. start_time s + divide_and_round ((end_time s - start_time s) * int i)
                        (int (length (ch s)) - 1)) [0..<length (ch s)] \<and>
     y_data c = ch s \<and> xlim c = Some (start_time s, end_time s)"
proof -
  from analysis_chart_cases[OF assms(1)] obtain t yl where
    g: "g = (\<lambda>s. case aligned_times (start_time s) (end_time s) (length (ch s)) of
             Inl e \<Rightarrow> Inl e
           | Inr ts \<Rightarrow> Inr \<lparr>chart_title = t, x_data = ts, y_data = ch s,
                 xlim = Some (start_time s, end_time s), ylim = yl\<rparr>)" by blast
  show ?thesis by (simp add: g aligned_times_Inr[OF assms(2)])
qed

text \<open>
  Claim C1, as amended. For every session and every channel with at least two samples,
  each of the four chart functions of \<open>sleep_quality_analysis\<close> plots the channel against
  as many timestamps as it has samples; the timestamp at index \<open>i\<close> is
  \<open>start + (end - start) * i / (n - 1)\<close>, the quotient being the \<open>timedelta\<close> division,
  which rounds to the nearest microsecond (so it is within half a microsecond of the
  exact value); the first timestamp is \<open>start\<close> and the last one is \<open>end\<close>, exactly.
\<close>

theorem analysis_alignment:
  assumes "(g, ch) \<in> set analysis_line_charts" and "2 \<le> length (ch s)"
  shows "\<exists>c. g s = Inr c \<and> length (x_data c) = length (ch s) \<and>
           (\<forall>i<length (ch s).
              x_data c ! i = start_time s +
                divide_and_round ((end_time s - start_time s) * int i) (int (length (ch s)) - 1) \<and>
              2 * \<bar>(int (length (ch s)) - 1) * (x_data c ! i - start_time s) -
                    (end_time s - start_time s) * int i\<bar> \<le> int (length (ch s)) - 1) \<and>
           hd (x_data c) = start_time s \<and> last (x_data c) = end_time s"
proof -
  let ?n = "length (ch s)"
  have n1: "?n \<noteq> 1" and pos: "0 < int ?n - 1" using assms(2) by simp_all
  from analysis_chart_x_data[OF assms(1) n1] obtain c where c: "g s = Inr c"
    and x: "x_data c = map (\<lambda>i. start_time s + divide_and_round ((end_time s - start_time s) * int i)
                        (int ?n - 1)) [0..<?n]" by blast
  have "length (x_data c) = ?n" by (simp add: x)
  moreover have "hd (x_data c) = start_time s" unfolding x by (rule aligned_times_hd[OF assms(2)])
  moreover have "last (x_data c) = end_time s" unfolding x by (rule aligned_times_last[OF assms(2)])
  moreover have "\<forall>i<?n. x_data c ! i = start_time s +
                divide_and_round ((end_time s - start_time s) * int i) (int ?n - 1) \<and>
              2 * \<bar>(int ?n - 1) * (x_data c ! i - start_time s) -
                    (end_time s - start_time s) * int i\<bar> \<le> int ?n - 1"
    using divide_and_round_near[OF pos] by (simp add: x)
  ultimately show ?thesis using c by blast
qed

text \<open>The heart-rate chart of the test night: four timestamps from 22:00 to 06:00.\<close>

theorem analysis_alignment_witness:
  "(generate_hr_chart, heart_rate) \<in> set analysis_line_charts \<and>
   2 \<le> length (heart_rate test_night) \<and>
   (\<exists>c. generate_hr_chart test_night = Inr c \<and> length (x_data c) = 4 \<and>
        x_data c ! 1 = 63882088800000000 \<and>
        hd (x_data c) = 63882079200000000 \<and> last (x_data c) = 63882108000000000)"
proof -
  have a: "(generate_hr_chart, heart_rate) \<in> set analysis_line_charts"
    by (simp add: analysis_line_charts_def)
  have b: "2 \<le> length (heart_rate test_night)" by (simp add: test_night_def)
  from analysis_alignment[OF a b] obtain c where c: "generate_hr_chart test_night = Inr c"
    and l: "length (x_data c) = length (heart_rate test_night)"
    and i: "\<forall>i<length (heart_rate test_night).
              x_data c ! i = start_time test_night +
                divide_and_round ((end_time test_night - start_time test_night) * int i)
                  (int (length (heart_rate test_night)) - 1)"
    and h: "hd (x_data c) = start_time test_night" "last (x_data c) = end_time test_night"
    by blast
  have "x_data c ! 1 = 63882088800000000"
    using i by (simp add: test_night_def divide_and_round_def)
  then show ?thesis using a b c l h by (simp add: test_night_def)
qed

text \<open>
  Claim C1 as stated also covers \<open>SleepQualityVisualizer.generate_heart_rate_chart\<close>,
  which steps by the duration divided by \<open>n\<close>: on the test night with four samples it
  plots at 22:00, 00:00, 02:00 and 04:00, so its last timestamp is two hours before the
  end of the session at 06:00.
\<close>

theorem visualizer_alignment_counterexample:
  "start_time test_night < end_time test_night \<and>
   length (heart_rate test_night) = 4 \<and>
   map_sum id x_data (generate_heart_rate_chart test_night) =
     Inr [63882079200000000, 63882086400000000, 63882093600000000, 63882100800000000] \<and>
   end_time test_night = 63882108000000000"
proof -
  have d: "fl64 (total_seconds 28800000000 / 3600) = 8" by code_simp
  have t0: "timedelta_hours (fl64 (fl64 (8 * 0) / 4)) = 0" by code_simp
  have t1: "timedelta_hours (fl64 (fl64 (8 * 1) / 4)) = 7200000000" by code_simp
  have t2: "timedelta_hours (fl64 (fl64 (8 * 2) / 4)) = 14400000000" by code_simp
  have t3: "timedelta_hours (fl64 (fl64 (8 * 3) / 4)) = 21600000000" by code_simp
  have u: "[0..<4] = [0, 1, 2, 3]" by code_simp
  show ?thesis
    using t0 t1 t2 t3 by (simp add: generate_heart_rate_chart_def test_night_def d u)
qed

text \<open>
  Claim C6, as amended. For a channel with a single sample each of the four chart
  functions of \<open>sleep_quality_analysis\<close> evaluates the division by \<open>n - 1 = 0\<close> and fails
  with the \<open>ZeroDivisionError\<close> that it raises; no chart is returned.
\<close>

theorem single_sample_zero_division:
  assumes "(g, ch) \<in> set analysis_line_charts" and "length (ch s) = 1"
  shows "g s = Inl ZeroDivisionError"
proof -
  from analysis_chart_cases[OF assms(1)] obtain t yl where
    g: "g = (\<lambda>s. case aligned_times (start_time s) (end_time s) (length (ch s)) of
             Inl e \<Rightarrow> Inl e
           | Inr ts \<Rightarrow> Inr \<lparr>chart_title = t, x_data = ts, y_data = ch s,
                 xlim = Some (start_time s, end_time s), ylim = yl\<rparr>)" by blast
  show ?thesis using aligned_times_one[of "start_time s" "end_time s"] by (simp add: g assms(2))
qed

theorem single_sample_zero_division_witness:
  "(generate_spo2_chart, spo2) \<in> set analysis_line_charts \<and>
   length (spo2 (test_night\<lparr>spo2 := [98]\<rparr>)) = 1 \<and>
   generate_spo2_chart (test_night\<lparr>spo2 := [98]\<rparr>) = Inl ZeroDivisionError"
proof -
  have a: "(generate_spo2_chart, spo2) \<in> set analysis_line_charts"
    by (simp add: analysis_line_charts_def)
  have b: "length (spo2 (test_night\<lparr>spo2 := [98]\<rparr>)) = 1" by simp
  from single_sample_zero_division[OF a b] a b show ?thesis by blast
qed

text \<open>
  Claim C6 as stated asks for an \<open>InvalidInput\<close> error instead of the division: the
  alignment of a single sample over the test night is the \<open>ZeroDivisionError\<close> of the
  division itself.
\<close>

theorem single_sample_counterexample:
  "aligned_times 63882079200000000 63882108000000000 1 = Inl ZeroDivisionError \<and>
   aligned_times 63882079200000000 63882108000000000 1 \<noteq> Inl InvalidInput \<and>
   generate_hr_chart (test_night\<lparr>heart_rate := [60]\<rparr>) = Inl ZeroDivisionError"
  by code_simp

subsection \<open>Monotonicity\<close>

lemma strict_int_list_span:
  fixes zs :: "int list"
  assumes "sorted_wrt (<) zs" "zs \<noteq> []"
  shows "hd zs + int (length zs) - 1 \<le> last zs"
  using assms
proof (induction zs)
  case Nil
  then show ?case by simp
next
  case (Cons z zs)
  show ?case
  proof (cases zs)
    case Nil
    then show ?thesis by simp
  next
    case (Cons y ys)
    with Cons.prems Cons.IH have "hd zs + int (length zs) - 1 \<le> last zs" "z < hd zs"
      by auto
    then show ?thesis using Cons by auto
  qed
qed

lemma sorted_wrt_map_upt:
  assumes "\<And>i. Suc i < n \<Longrightarrow> R (f i) (f (Suc i))" "transp R"
  shows "sorted_wrt R (map f [0..<n])"
proof -
  have "R (f i) (f j)" if "i < j" "j < n" for i j
    using that
  proof (induction j)
    case 0
    then show ?case by simp
  next
    case (Suc j)
    show ?case
    proof (cases "i = j")
      case True
      then show ?thesis using assms(1)[of j] Suc.prems by simp
    next
      case False
      then have "R (f i) (f j)" using Suc by simp
      moreover have "R (f j) (f (Suc j))" using assms(1) Suc.prems by simp
      ultimately show ?thesis using assms(2) by (meson transpD)
    qed
  qed
  then show ?thesis by (simp add: sorted_wrt_iff_nth_less)
qed

text \<open>
  Claim C8, as amended. For every alignment with at least two samples and
  \<open>end \<ge> start\<close> the timestamps are in non-decreasing order, and they are strictly
  increasing exactly when the session lasts at least \<open>n - 1\<close> microseconds.
\<close>

theorem aligned_times_monotone:
  assumes "2 \<le> n" and "start \<le> end"
  shows "\<exists>ts. aligned_times start end n = Inr ts \<and> sorted ts \<and>
               (sorted_wrt (<) ts \<longleftrightarrow> int n - 1 \<le> end - start)"
proof -
  let ?b = "int n - 1"
  let ?f = "\<lambda>i. start + divide_and_round ((end - start) * int i) ?b"
  let ?ts = "map ?f [0..<n]"
  have pos: "0 < ?b" and n1: "n \<noteq> 1" using assms(1) by simp_all
  have eq: "aligned_times start end n = Inr ?ts" by (rule aligned_times_Inr[OF n1])
  have step: "(end - start) * int (Suc i) = (end - start) * int i + (end - start)" for i
    by (simp add: algebra_simps)
  have "?f i \<le> ?f (Suc i)" for i
  proof -
    have "(end - start) * int i \<le> (end - start) * int i + (end - start)"
      using assms(2) by simp
    from divide_and_round_mono[OF pos this] show ?thesis
      by (simp only: step add_le_cancel_left)
  qed
  then have "sorted_wrt (\<le>) ?ts" by (intro sorted_wrt_map_upt) (auto simp: transp_def)
  then have s: "sorted ?ts" by simp
  have "sorted_wrt (<) ?ts" if "?b \<le> end - start"
  proof -
    have "?f i < ?f (Suc i)" for i
      using divide_and_round_strict[OF pos that, of "int i"]
      by (simp only: step add_less_cancel_left)
    then show ?thesis by (intro sorted_wrt_map_upt) (auto simp: transp_def)
  qed
  moreover have "?b \<le> end - start" if "sorted_wrt (<) ?ts"
  proof -
    have ne: "?ts \<noteq> []" using assms(1) by auto
    from strict_int_list_span[OF that ne]
    show ?thesis by (simp only: aligned_times_hd[OF assms(1)] aligned_times_last[OF assms(1)]) simp
  qed
  ultimately show ?thesis using eq s by blast
qed

text \<open>The 480 samples of the test scripts over the eight hours of the test night.\<close>

theorem aligned_times_monotone_witness:
  "(2::nat) \<le> 480 \<and> (63882079200000000::int) \<le> 63882108000000000 \<and>
   (\<exists>ts. aligned_times 63882079200000000 63882108000000000 480 = Inr ts \<and> sorted_wrt (<) ts)"
proof -
  have a: "(2::nat) \<le> 480" by simp
  have b: "(63882079200000000::int) \<le> 63882108000000000" by simp
  from aligned_times_monotone[OF a b] obtain ts where
    "aligned_times 63882079200000000 63882108000000000 480 = Inr ts"
    "sorted_wrt (<) ts \<longleftrightarrow> int 480 - 1 \<le> 63882108000000000 - 63882079200000000"
    by blast
  then show ?thesis by auto
qed

text \<open>
  Claim C8 as stated admits \<open>end = start\<close>, where two samples get the same timestamp;
  and \<open>end > start\<close> alone is not enough either: three samples over one microsecond are
  placed at 0, 0 and 1.
\<close>

theorem strictly_increasing_counterexample:
  "aligned_times 63882079200000000 63882079200000000 2 =
     Inr [63882079200000000, 63882079200000000] \<and>
   \<not> sorted_wrt (<) [63882079200000000, 63882079200000000 :: int] \<and>
   aligned_times 0 1 3 = Inr [0, 0, 1] \<and>
   \<not> sorted_wrt (<) [0, 0, 1 :: int]"
  by code_simp

section \<open>The stage breakdown\<close>

subsection \<open>Rounding to the nearest integer and to the nearest float\<close>

lemma round_half_even_near: "\<bar>of_int (round_half_even x) - x\<bar> \<le> 1 / 2"
proof -
  define f d where "f = \<lfloor>x\<rfloor>" and "d = x - of_int f"
  have d: "0 \<le> d" "d < 1" by (simp_all add: d_def f_def) linarith+
  have x: "x = of_int f + d" by (simp add: d_def)
  have r: "round_half_even x =
     (if d < 1 / 2 then f else if 1 / 2 < d then f + 1 else if even f then f else f + 1)"
    by (simp add: round_half_even_def f_def d_def Let_def)
  show ?thesis unfolding r using d by (auto simp: x)
qed

lemma round_half_even_of_int: "round_half_even (of_int z) = z"
  by (simp add: round_half_even_def)

lemma round_half_even_nonneg: "0 \<le> x \<Longrightarrow> 0 \<le> round_half_even x"
  by (auto simp: round_half_even_def Let_def)

lemma ilog2_le:
  assumes "0 < q"
  shows "2 powi (ilog2 q) \<le> q"
proof -
  obtain a b where ab: "quotient_of q = (a, b)" by (cases "quotient_of q")
  have b: "0 < b" using ab by (rule quotient_of_denom_pos)
  have q: "q = of_int a / of_int b" using ab by (rule quotient_of_div)
  have a: "0 < a" using assms b q by (simp add: zero_less_divide_iff)
  define k where "k = bitlen a - bitlen b"
  have il: "ilog2 q = (if 2 powi k \<le> q then k else k - 1)"
    by (simp add: ilog2_def ab k_def Let_def)
  have la: "2 ^ nat (bitlen a - 1) \<le> a" and lb: "b < 2 ^ nat (bitlen b)"
    using bitlen_bounds[OF a] bitlen_bounds[OF b] by simp_all
  have pa: "1 \<le> bitlen a"
  proof (rule ccontr)
    assume "\<not> 1 \<le> bitlen a"
    then have "bitlen a = 0" using bitlen_nonneg[of a] by simp
    then have "a < 1" using bitlen_bounds[OF a] by simp
    then show False using a by simp
  qed
  have pb: "0 \<le> bitlen b" by (rule bitlen_nonneg)
  have "k - 1 = (bitlen a - 1) - bitlen b" by (simp add: k_def)
  moreover have "(2::rat) powi ((bitlen a - 1) - bitlen b) = 2 powi (bitlen a - 1) / 2 powi bitlen b"
    by (rule power_int_diff) simp
  ultimately have "2 powi (k - 1) = (2::rat) powi (bitlen a - 1) / 2 powi bitlen b"
    by (simp only:)
  also have "\<dots> = 2 ^ nat (bitlen a - 1) / 2 ^ nat (bitlen b)"
    using pa pb by (simp add: power_int_def)
  also have "\<dots> \<le> of_int a / of_int b"
  proof (rule frac_le)
    show "(0::rat) \<le> of_int a" using a by simp
    show "(2::rat) ^ nat (bitlen a - 1) \<le> of_int a"
      using la by (metis of_int_le_iff of_int_numeral of_int_power)
    show "(0::rat) < of_int b" using b by simp
    show "(of_int b :: rat) \<le> 2 ^ nat (bitlen b)"
      using lb by (metis less_imp_le of_int_le_iff of_int_numeral of_int_power)
  qed
  finally have "2 powi (k - 1) \<le> q" by (simp add: q)
  then show ?thesis by (simp add: il)
qed

lemma fl64_nonneg: "0 \<le> q \<Longrightarrow> 0 \<le> fl64 q"
  by (simp add: fl64_def Let_def round_half_even_nonneg)

lemma fl64_zero: "fl64 0 = 0"
  by (simp add: fl64_def)

lemma fl64_err:
  assumes "0 \<le> q"
  shows "\<bar>fl64 q - q\<bar> \<le> (q * 2 powi (- 52) + 2 powi (- 1074)) / 2"
proof (cases "q = 0")
  case True
  then show ?thesis by (simp add: fl64_def del: power_int_numeral_neg_numeral)
next
  case False
  then have q: "0 < q" using assms by simp
  define e where "e = max (ilog2 q - 52) (- 1074)"
  define p :: rat where "p = 2 powi e"
  have p: "0 < p" by (simp add: p_def)
  have f: "fl64 q = of_int (round_half_even (q / p)) * p"
    using q by (simp add: fl64_def e_def p_def Let_def del: power_int_numeral_neg_numeral)
  have "fl64 q - q = (of_int (round_half_even (q / p)) - q / p) * p"
    using p by (simp add: f algebra_simps)
  then have "\<bar>fl64 q - q\<bar> = \<bar>of_int (round_half_even (q / p)) - q / p\<bar> * p"
    using p by (simp add: abs_mult)
  also have "\<dots> \<le> 1 / 2 * p"
    using p round_half_even_near[of "q / p"] by (intro mult_right_mono) simp_all
  finally have h: "\<bar>fl64 q - q\<bar> \<le> p / 2" by simp
  have "(2::rat) powi (ilog2 q - 52) = 2 powi ilog2 q * 2 powi (- 52)"
    using power_int_add[of "2::rat" "ilog2 q" "- 52"] by simp
  also have "\<dots> \<le> q * 2 powi (- 52)"
    by (intro mult_right_mono ilog2_le[OF q]) simp
  finally have a: "(2::rat) powi (ilog2 q - 52) \<le> q * 2 powi (- 52)" .
  have "p \<le> q * 2 powi (- 52) + 2 powi (- 1074)"
  proof (cases "ilog2 q - 52 \<le> - 1074")
    case True
    then have "p = 2 powi (- 1074)" by (simp add: p_def e_def max_def)
    moreover have "0 \<le> q * 2 powi (- 52)" using q by simp
    ultimately show ?thesis by linarith
  next
    case False
    then have "p = 2 powi (ilog2 q - 52)" by (simp add: p_def e_def max_def)
    moreover have "(0::rat) \<le> 2 powi (- 1074)" by simp
    ultimately show ?thesis using a by linarith
  qed
  then have "p / 2 \<le> (q * 2 powi (- 52) + 2 powi (- 1074)) / 2"
    by (rule divide_right_mono) simp
  with h show ?thesis by (rule order_trans)
qed

lemma fl64_near:
  assumes "0 \<le> q" "q \<le> 128"
  shows "\<bar>fl64 q - q\<bar> \<le> 1 / 2 ^ 45"
proof -
  define u v :: rat where "u = 2 powi (- 52)" and "v = 2 powi (- 1074)"
  have e: "\<bar>fl64 q - q\<bar> \<le> (q * u + v) / 2"
    unfolding u_def v_def by (rule fl64_err[OF assms(1)])
  have "v \<le> 2 powi (- 45)" unfolding v_def by (rule power_int_increasing) simp_all
  then have v: "v \<le> 1 / 2 ^ 45" by (simp add: power_int_minus_divide)
  have u: "u = 1 / 2 ^ 52" by (simp add: u_def power_int_minus_divide)
  have "q * u \<le> 128 * u" using assms(2) by (intro mult_right_mono) (simp_all add: u)
  also have "\<dots> = 1 / 2 ^ 45" by (simp add: u)
  finally have "q * u \<le> 1 / 2 ^ 45" .
  then have "q * u + v \<le> 1 / 2 ^ 45 + 1 / 2 ^ 45" using v by (rule add_mono)
  then have "(q * u + v) / 2 \<le> (1 / 2 ^ 45 + 1 / 2 ^ 45) / 2"
    by (rule divide_right_mono) simp
  also have "\<dots> = 1 / 2 ^ 45" by simp
  finally show ?thesis using e by (rule order_trans[rotated])
qed

lemma ilog2_less:
  assumes "0 < q" "q < 2 ^ n"
  shows "ilog2 q < int n"
proof (rule ccontr)
  assume "\<not> ilog2 q < int n"
  then have "int n \<le> ilog2 q" by simp
  then have "(2::rat) powi int n \<le> 2 powi ilog2 q" by (rule power_int_increasing) simp
  also have "\<dots> \<le> q" by (rule ilog2_le[OF assms(1)])
  finally show False using assms(2) by simp
qed

lemma fl64_int_exact:
  assumes "0 \<le> n" "n < 2 ^ 53"
  shows "fl64 (of_int n) = of_int n"
proof (cases "n = 0")
  case True
  then show ?thesis by (simp add: fl64_def)
next
  case False
  then have n: "0 < n" using assms by simp
  define q :: rat where "q = of_int n"
  have q: "0 < q" "q < 2 ^ 53" using n assms(2) unfolding q_def
    by simp (metis assms(2) of_int_less_iff of_int_numeral of_int_power)
  define e where "e = max (ilog2 q - 52) (- 1074)"
  have "ilog2 q < int 53" by (rule ilog2_less[OF q])
  then have e: "e \<le> 0" by (simp add: e_def)
  define m where "m = nat (- e)"
  have p: "(2::rat) powi e = 1 / 2 ^ m"
    using e power_int_minus_divide[of "2::rat" "- e"] by (simp add: m_def power_int_def)
  have "q / 2 powi e = of_int (n * 2 ^ m)" by (simp add: p q_def)
  then have "round_half_even (q / 2 powi e) = n * 2 ^ m"
    by (simp only: round_half_even_of_int)
  then have "fl64 q = of_int (n * 2 ^ m) * (1 / 2 ^ m)"
    using q(1) by (simp add: fl64_def e_def[symmetric] Let_def p abs_of_pos del: power_int_numeral_neg_numeral)
  then show ?thesis by (simp add: q_def)
qed

subsection \<open>Integers as floats, percentages\<close>

lemma float_of_int_exact:
  assumes "d < 2 ^ 53"
  shows "float_of_int (int d) = Inr (of_nat d)"
proof -
  have a: "int d < 2 ^ 53" using assms by (metis of_nat_less_iff of_nat_numeral of_nat_power)
  have f: "fl64 (of_int (int d)) = of_int (int d)" by (rule fl64_int_exact[OF _ a]) simp
  have "(of_int (int d) :: rat) < 2 ^ 53" using a by (metis of_int_less_iff of_int_numeral of_int_power)
  also have "\<dots> \<le> (2::rat) ^ 1024" by (rule power_increasing) simp_all
  finally have "\<not> (2::rat) ^ 1024 \<le> \<bar>of_int (int d)\<bar>" by simp
  then show ?thesis unfolding float_of_int_def f Let_def by (simp only: if_False) simp
qed

lemma text_0f_nat: "text_0f (of_nat d) = str_nat d"
proof -
  have "round_half_even (of_int (int d)) = int d" by (rule round_half_even_of_int)
  then show ?thesis by (simp add: text_0f_def)
qed

lemma percent_tenths_zero_total: "percent_tenths d 0 = Inl ZeroDivisionError"
  by (simp add: percent_tenths_def int_truediv_def)

lemma percent_tenths_Inr:
  assumes "0 < T"
  shows "percent_tenths d T = Inr (tenths_1f (fl64 (fl64 (of_nat d / of_nat T) * 100)))"
  using assms by (simp add: percent_tenths_def int_truediv_def)

lemma percent_tenths_zero:
  "tenths_1f (fl64 (fl64 (of_nat 0 / of_nat T) * 100)) = 0"
  by (simp add: fl64_zero tenths_1f_def round_half_even_def)

lemma tenths_near:
  assumes "0 < T" "d \<le> T"
  shows "\<bar>of_nat (tenths_1f (fl64 (fl64 (of_nat d / of_nat T) * 100))) - 1000 * of_nat d / of_nat T\<bar>
           \<le> (5 / 8 :: rat)"
proof -
  define q :: rat where "q = of_nat d / of_nat T"
  define y where "y = fl64 q"
  define x where "x = fl64 (y * 100)"
  define r where "r = round_half_even (x * 10)"
  define w :: rat where "w = 1 / 2 ^ 45"
  have w: "0 \<le> w" "1010 * w \<le> 1 / 8" by (simp_all add: w_def)
  have q: "0 \<le> q" "q \<le> 1" using assms by (simp_all add: q_def)
  have yq: "\<bar>y - q\<bar> \<le> w" unfolding y_def w_def using q by (intro fl64_near) simp_all
  have y0: "0 \<le> y" unfolding y_def using q by (intro fl64_nonneg)
  have "y \<le> 1 + w" using yq q by linarith
  then have y1: "y * 100 \<le> 128" using w by linarith
  have xy: "\<bar>x - y * 100\<bar> \<le> w" unfolding x_def w_def using y0 y1 by (intro fl64_near) simp_all
  have x0: "0 \<le> x" unfolding x_def using y0 by (intro fl64_nonneg) simp
  have r0: "0 \<le> r" unfolding r_def using x0 by (intro round_half_even_nonneg) simp
  have rx: "\<bar>of_int r - x * 10\<bar> \<le> 1 / 2" unfolding r_def by (rule round_half_even_near)
  have t: "(of_nat (tenths_1f x) :: rat) = of_int r"
    using r0 by (simp add: tenths_1f_def r_def)
  have "\<bar>of_int r - 1000 * q\<bar> \<le> 5 / 8" using rx xy yq w by linarith
  then show ?thesis by (simp add: t[symmetric] x_def y_def q_def)
qed

lemma tenths_sum:
  fixes t1 t2 t3 t4 :: nat
  assumes "0 < T" "d1 + d2 + d3 + d4 = T"
    and "\<bar>of_nat t1 - 1000 * of_nat d1 / of_nat T\<bar> \<le> (5 / 8 :: rat)"
    and "\<bar>of_nat t2 - 1000 * of_nat d2 / of_nat T\<bar> \<le> (5 / 8 :: rat)"
    and "\<bar>of_nat t3 - 1000 * of_nat d3 / of_nat T\<bar> \<le> (5 / 8 :: rat)"
    and "\<bar>of_nat t4 - 1000 * of_nat d4 / of_nat T\<bar> \<le> (5 / 8 :: rat)"
  shows "\<bar>int (t1 + t2 + t3 + t4) - 1000\<bar> \<le> 2"
proof -
  define q1 q2 q3 q4 :: rat where "q1 = 1000 * of_nat d1 / of_nat T"
    and "q2 = 1000 * of_nat d2 / of_nat T" and "q3 = 1000 * of_nat d3 / of_nat T"
    and "q4 = 1000 * of_nat d4 / of_nat T"
  have "q1 + q2 + q3 + q4 = 1000 * of_nat (d1 + d2 + d3 + d4) / of_nat T"
    by (simp add: q1_def q2_def q3_def q4_def add_divide_distrib algebra_simps)
  also have "\<dots> = 1000" using assms(1,2) by simp
  finally have s: "q1 + q2 + q3 + q4 = 1000" .
  define z where "z = int (t1 + t2 + t3 + t4) - 1000"
  have "(of_int z :: rat) = of_nat t1 + of_nat t2 + of_nat t3 + of_nat t4 - 1000"
    by (simp add: z_def)
  with assms(3-6) s have "\<bar>of_int z :: rat\<bar> \<le> 5 / 2"
    unfolding q1_def[symmetric] q2_def[symmetric] q3_def[symmetric] q4_def[symmetric]
    by linarith
  then have "\<bar>of_int z :: rat\<bar> < of_int 3" by simp
  then have "\<bar>z\<bar> < 3" by (metis of_int_abs of_int_less_iff)
  then show ?thesis by (simp add: z_def)
qed

lemma stages_total:
  assumes "distinct (map fst st)"
  shows "sum_list (map snd st) = (\<Sum>k\<in>set (map fst st). get_or_0 st k)"
  using assms
proof (induction st)
  case Nil
  then show ?case by simp
next
  case (Cons kv st)
  obtain k v where kv: "kv = (k, v)" by (cases kv)
  have k: "k \<notin> set (map fst st)" and d: "distinct (map fst st)"
    using Cons.prems by (simp_all add: kv)
  have "(\<Sum>k'\<in>set (map fst st). get_or_0 (kv # st) k') = (\<Sum>k'\<in>set (map fst st). get_or_0 st k')"
    using k by (intro sum.cong) (auto simp: get_or_0_def kv)
  then show ?case using k Cons.IH[OF d] by (simp add: kv get_or_0_def)
qed

lemma four_stage_total:
  assumes "distinct (map fst st)"
    and "set (map fst st) = {''deep'', ''rem'', ''light'', ''awake''}"
  shows "get_or_0 st ''deep'' + get_or_0 st ''rem'' + get_or_0 st ''light'' + get_or_0 st ''awake''
         = sum_list (map snd st)"
proof -
  have "sum_list (map snd st) = (\<Sum>k\<in>{''deep'', ''rem'', ''light'', ''awake''}. get_or_0 st k)"
    unfolding stages_total[OF assms(1)] assms(2) ..
  then show ?thesis by simp
qed

subsection \<open>The two renderers\<close>

lemma stage_le_total:
  fixes st :: "(string \<times> nat) list"
  assumes "map_of st k = Some d"
  shows "d \<le> sum_list (map snd st)"
proof -
  have "(k, d) \<in> set st" using assms by (rule map_of_SomeD)
  then have "d \<in> set (map snd st)" by force
  then show ?thesis by (rule member_le_sum_list) simp
qed

lemma get_or_0_le: "get_or_0 st k \<le> sum_list (map snd st)"
  by (auto simp: get_or_0_def split: option.splits dest: stage_le_total)

lemma float_of_int_0: "float_of_int 0 = Inr 0"
  by (simp add: float_of_int_def fl64_zero)

text \<open>
  Claim C3, as amended. For every stage mapping whose durations sum to zero,
  \<open>generate_sleep_stage_pie_chart\<close> evaluates the percentage of the first stage and fails
  with the \<open>ZeroDivisionError\<close> of that division, and \<open>generate_sleep_structure_chart\<close>
  does the same when the key \<open>deep\<close> is present and fails with \<open>KeyError\<close> when it is
  not; neither returns a chart.
\<close>

theorem zero_total_division_error:
  assumes "sum_list (map snd (sleep_stages s)) = 0"
  shows "generate_sleep_stage_pie_chart s = Inl ZeroDivisionError \<and>
         generate_sleep_structure_chart s =
           (if ''deep'' \<in> set (map fst (sleep_stages s)) then Inl ZeroDivisionError
            else Inl KeyError)"
proof -
  have a: "generate_sleep_stage_pie_chart s = Inl ZeroDivisionError"
    by (simp add: generate_sleep_stage_pie_chart_def assms analysis_label_def
        percent_tenths_zero_total)
  have b: "generate_sleep_structure_chart s = Inl ZeroDivisionError"
    if "''deep'' \<in> set (map fst (sleep_stages s))"
  proof -
    from that obtain d where d: "map_of (sleep_stages s) ''deep'' = Some d"
      by (metis map_of_eq_None_iff not_Some_eq set_map)
    from stage_le_total[OF d] have "d = 0" using assms by simp
    then show ?thesis
      by (simp add: generate_sleep_structure_chart_def assms structure_label_def getitem_def d
          float_of_int_0 percent_tenths_zero_total)
  qed
  have c: "generate_sleep_structure_chart s = Inl KeyError"
    if "''deep'' \<notin> set (map fst (sleep_stages s))"
  proof -
    from that have "map_of (sleep_stages s) ''deep'' = None"
      by (simp add: map_of_eq_None_iff)
    then show ?thesis
      by (simp add: generate_sleep_structure_chart_def structure_label_def getitem_def)
  qed
  show ?thesis using a b c by simp
qed

text \<open>The four stages of the test night with zero minutes each.\<close>

theorem zero_total_division_error_witness:
  "sum_list (map snd (sleep_stages (test_night\<lparr>sleep_stages :=
      [(''deep'', 0), (''rem'', 0), (''light'', 0), (''awake'', 0)]\<rparr>))) = 0 \<and>
   generate_sleep_stage_pie_chart (test_night\<lparr>sleep_stages :=
      [(''deep'', 0), (''rem'', 0), (''light'', 0), (''awake'', 0)]\<rparr>) = Inl ZeroDivisionError \<and>
   generate_sleep_structure_chart (test_night\<lparr>sleep_stages :=
      [(''deep'', 0), (''rem'', 0), (''light'', 0), (''awake'', 0)]\<rparr>) = Inl ZeroDivisionError"
proof -
  let ?s = "test_night\<lparr>sleep_stages := [(''deep'', 0), (''rem'', 0), (''light'', 0), (''awake'', 0)]\<rparr>"
  have a: "sum_list (map snd (sleep_stages ?s)) = 0" by simp
  from zero_total_division_error[OF a] a show ?thesis by simp
qed

text \<open>
  Claim C3 as stated asks for a \<open>DegenerateInput\<close> error in place of the division: on
  the all-zero mapping both renderers fail with the \<open>ZeroDivisionError\<close> of the division.
\<close>

theorem zero_total_counterexample:
  "generate_sleep_stage_pie_chart (test_night\<lparr>sleep_stages :=
      [(''deep'', 0), (''rem'', 0), (''light'', 0), (''awake'', 0)]\<rparr>) = Inl ZeroDivisionError \<and>
   generate_sleep_stage_pie_chart (test_night\<lparr>sleep_stages :=
      [(''deep'', 0), (''rem'', 0), (''light'', 0), (''awake'', 0)]\<rparr>) \<noteq> Inl DegenerateInput \<and>
   generate_sleep_structure_chart (test_night\<lparr>sleep_stages :=
      [(''deep'', 0), (''rem'', 0), (''light'', 0), (''awake'', 0)]\<rparr>) = Inl ZeroDivisionError \<and>
   generate_sleep_structure_chart (test_night\<lparr>sleep_stages :=
      [(''deep'', 0), (''rem'', 0), (''light'', 0), (''awake'', 0)]\<rparr>) \<noteq> Inl DegenerateInput"
  by (simp add: generate_sleep_stage_pie_chart_def generate_sleep_structure_chart_def
      analysis_label_def structure_label_def getitem_def get_or_0_def float_of_int_0
      percent_tenths_zero_total)

text \<open>
  Claim C4, as amended. For every stage mapping with exactly the four keys and a positive
  total, \<open>generate_sleep_stage_pie_chart\<close> returns a chart with the four stages in the
  order deep, rem, light, awake, the durations as sizes, and one label per stage that
  shows the minutes and the percentage \<open>dur/total*100\<close>, computed in binary64 and
  rounded to one decimal; \<open>generate_sleep_structure_chart\<close> returns the same sizes and
  labels (with the title \<open>REM\<close>) when every duration is below \<open>2 ^ 53\<close> minutes. A stage
  of zero minutes is shown with 0.0 percent, every shown percentage is within 0.0625 of
  the exact one, and the shown percentages sum to 100.0 within 0.2 (all three stated
  in tenths of a percent).
\<close>

theorem stage_breakdown:
  assumes "distinct (map fst (sleep_stages s))"
    and "set (map fst (sleep_stages s)) = {''deep'', ''rem'', ''light'', ''awake''}"
    and "0 < sum_list (map snd (sleep_stages s))"
  shows "let T = sum_list (map snd (sleep_stages s));
             ds = map (get_or_0 (sleep_stages s)) [''deep'', ''rem'', ''light'', ''awake''];
             ts = map (\<lambda>d. tenths_1f (fl64 (fl64 (of_nat d / of_nat T) * 100))) ds
         in (\<exists>c. generate_sleep_stage_pie_chart s = Inr c \<and> sizes c = ds \<and>
                 labels c = map2 (\<lambda>name (d, t). analysis_label_text name d t)
                              [''Deep'', ''Rem'', ''Light'', ''Awake''] (zip ds ts)) \<and>
            ((\<forall>d\<in>set ds. d < 2 ^ 53) \<longrightarrow>
               (\<exists>c. generate_sleep_structure_chart s = Inr c \<and> sizes c = ds \<and>
                 labels c = map2 (\<lambda>name (d, t). analysis_label_text name d t)
                              [''Deep'', ''REM'', ''Light'', ''Awake''] (zip ds ts))) \<and>
            (\<forall>(d, t)\<in>set (zip ds ts).
                (d = 0 \<longrightarrow> t = 0) \<and>
                \<bar>of_nat t - 1000 * of_nat d / of_nat T\<bar> \<le> (5 / 8 :: rat)) \<and>
            \<bar>int (sum_list ts) - 1000\<bar> \<le> 2"
proof -
  define st where "st = sleep_stages s"
  define T where "T = sum_list (map snd st)"
  define pc where "pc = (\<lambda>d. tenths_1f (fl64 (fl64 (of_nat d / of_nat T) * 100)))"
  define d1 d2 d3 d4 where "d1 = get_or_0 st ''deep''" and "d2 = get_or_0 st ''rem''"
    and "d3 = get_or_0 st ''light''" and "d4 = get_or_0 st ''awake''"
  have T: "0 < T" using assms(3) by (simp add: T_def st_def)
  have tot: "d1 + d2 + d3 + d4 = T"
    unfolding d1_def d2_def d3_def d4_def T_def
    by (rule four_stage_total) (use assms in \<open>simp_all add: st_def\<close>)
  have le: "d1 \<le> T" "d2 \<le> T" "d3 \<le> T" "d4 \<le> T" using tot by simp_all
  have pt: "percent_tenths d T = Inr (pc d)" for d
    unfolding pc_def by (rule percent_tenths_Inr[OF T])
  have near: "\<bar>of_nat (pc d) - 1000 * of_nat d / of_nat T\<bar> \<le> (5 / 8 :: rat)" if "d \<le> T" for d
    unfolding pc_def by (rule tenths_near[OF T that])
  have zero: "pc 0 = 0" unfolding pc_def using percent_tenths_zero[of T] by simp
  have pie: "\<exists>c. generate_sleep_stage_pie_chart s = Inr c \<and> sizes c = [d1, d2, d3, d4] \<and>
      labels c = [analysis_label_text ''Deep'' d1 (pc d1), analysis_label_text ''Rem'' d2 (pc d2),
                  analysis_label_text ''Light'' d3 (pc d3), analysis_label_text ''Awake'' d4 (pc d4)]"
    by (simp add: generate_sleep_stage_pie_chart_def analysis_label_def pt
        st_def[symmetric] T_def[symmetric] d1_def d2_def d3_def d4_def)
  have keys: "map_of st ''deep'' = Some d1" "map_of st ''rem'' = Some d2"
    "map_of st ''light'' = Some d3" "map_of st ''awake'' = Some d4"
  proof -
    have "k \<in> set (map fst st) \<Longrightarrow> map_of st k = Some (get_or_0 st k)" for k
      by (cases "map_of st k") (auto simp: get_or_0_def map_of_eq_None_iff)
    then show "map_of st ''deep'' = Some d1" "map_of st ''rem'' = Some d2"
      "map_of st ''light'' = Some d3" "map_of st ''awake'' = Some d4"
      using assms(2) by (simp_all add: st_def d1_def d2_def d3_def d4_def)
  qed
  have struct: "\<exists>c. generate_sleep_structure_chart s = Inr c \<and> sizes c = [d1, d2, d3, d4] \<and>
      labels c = [analysis_label_text ''Deep'' d1 (pc d1), analysis_label_text ''REM'' d2 (pc d2),
                  analysis_label_text ''Light'' d3 (pc d3), analysis_label_text ''Awake'' d4 (pc d4)]"
    if "d1 < 2 ^ 53" "d2 < 2 ^ 53" "d3 < 2 ^ 53" "d4 < 2 ^ 53"
    by (simp add: generate_sleep_structure_chart_def structure_label_def getitem_def pt keys
        st_def[symmetric] T_def[symmetric] float_of_int_exact[OF that(1)]
        float_of_int_exact[OF that(2)] float_of_int_exact[OF that(3)]
        float_of_int_exact[OF that(4)] structure_label_text_def analysis_label_text_def
        text_0f_nat)
  have sum: "\<bar>int (pc d1 + pc d2 + pc d3 + pc d4) - 1000\<bar> \<le> 2"
    by (rule tenths_sum[OF T tot]) (rule near, rule le)+
  show ?thesis
    unfolding Let_def st_def[symmetric] T_def[symmetric] pc_def[symmetric]
    using pie struct near[OF le(1)] near[OF le(2)] near[OF le(3)] near[OF le(4)] zero sum
    by (simp add: d1_def[symmetric] d2_def[symmetric] d3_def[symmetric] d4_def[symmetric])
qed

text \<open>The stages of the test night: 23.7, 21.1, 52.6 and 2.6 percent.\<close>

theorem stage_breakdown_witness:
  "distinct (map fst (sleep_stages test_night)) \<and>
   set (map fst (sleep_stages test_night)) = {''deep'', ''rem'', ''light'', ''awake''} \<and>
   0 < sum_list (map snd (sleep_stages test_night)) \<and>
   (\<exists>c. generate_sleep_stage_pie_chart test_night = Inr c \<and> sizes c = [90, 80, 200, 10] \<and>
        labels c = [''Deep: 90m (23.7%)'', ''Rem: 80m (21.1%)'', ''Light: 200m (52.6%)'',
                    ''Awake: 10m (2.6%)'']) \<and>
   \<bar>int (sum_list [237, 211, 526, 26]) - 1000\<bar> \<le> 2"
proof -
  have a: "distinct (map fst (sleep_stages test_night))" by (simp add: test_night_def)
  have b: "set (map fst (sleep_stages test_night)) = {''deep'', ''rem'', ''light'', ''awake''}"
    by (simp add: test_night_def)
  have c: "0 < sum_list (map snd (sleep_stages test_night))" by (simp add: test_night_def)
  have t: "tenths_1f (fl64 (fl64 (9 / 38) * 100)) = 237"
    "tenths_1f (fl64 (fl64 (4 / 19) * 100)) = 211"
    "tenths_1f (fl64 (fl64 (10 / 19) * 100)) = 526"
    "tenths_1f (fl64 (fl64 (1 / 38) * 100)) = 26"
    by code_simp+
  have l: "analysis_label_text ''Deep'' 90 237 = ''Deep: 90m (23.7%)''"
    "analysis_label_text ''Rem'' 80 211 = ''Rem: 80m (21.1%)''"
    "analysis_label_text ''Light'' 200 526 = ''Light: 200m (52.6%)''"
    "analysis_label_text ''Awake'' 10 26 = ''Awake: 10m (2.6%)''"
    by code_simp+
  have g: "map (get_or_0 (sleep_stages test_night)) [''deep'', ''rem'', ''light'', ''awake'']
           = [90, 80, 200, 10]"
    by (simp add: test_night_def get_or_0_def)
  have s: "sum_list (map snd (sleep_stages test_night)) = 380" by (simp add: test_night_def)
  from stage_breakdown[OF a b c] show ?thesis
    unfolding Let_def g s using a b c by (simp add: t l)
qed

text \<open>
  Claim C4 as stated bounds the sum of the shown percentages by a tolerance of 0.1. In a
  night of eight hours with 30 minutes each of deep sleep, REM sleep and waking, the
  exact percentages are 6.25, 6.25, 81.25 and 6.25; each is shown rounded half to even,
  as 6.2, 6.2, 81.2 and 6.2, which sum to 99.8.
\<close>

theorem percentage_sum_counterexample:
  "map_sum id (\<lambda>c. (sizes c, labels c))
     (generate_sleep_stage_pie_chart (test_night\<lparr>sleep_stages :=
        [(''deep'', 30), (''rem'', 30), (''light'', 390), (''awake'', 30)]\<rparr>)) =
     Inr ([30, 30, 390, 30],
          [''Deep: 30m (6.2%)'', ''Rem: 30m (6.2%)'', ''Light: 390m (81.2%)'', ''Awake: 30m (6.2%)'']) \<and>
   map_sum id labels
     (generate_sleep_structure_chart (test_night\<lparr>sleep_stages :=
        [(''deep'', 30), (''rem'', 30), (''light'', 390), (''awake'', 30)]\<rparr>)) =
     Inr [''Deep: 30m (6.2%)'', ''REM: 30m (6.2%)'', ''Light: 390m (81.2%)'', ''Awake: 30m (6.2%)''] \<and>
   percent_tenths 30 480 = Inr 62 \<and> percent_tenths 390 480 = Inr 812 \<and>
   \<not> \<bar>(62 + 62 + 812 + 62) / 10 - (100 :: rat)\<bar> \<le> 1 / 10"
proof -
  have p: "percent_tenths 30 480 = Inr 62" "percent_tenths 390 480 = Inr 812"
    by code_simp+
  have n: "str_nat 30 = ''30''" "str_nat 390 = ''390''" "text_1f 62 = ''6.2''"
    "text_1f 812 = ''81.2''"
    by code_simp+
  have f: "float_of_int 30 = Inr 30" "float_of_int 390 = Inr 390"
    using float_of_int_exact[of 30] float_of_int_exact[of 390] by simp_all
  have x: "text_0f 30 = str_nat 30" "text_0f 390 = str_nat 390"
    using text_0f_nat[of 30] text_0f_nat[of 390] by simp_all
  show ?thesis
    by (simp add: generate_sleep_stage_pie_chart_def generate_sleep_structure_chart_def
        analysis_label_def structure_label_def getitem_def get_or_0_def p f
        structure_label_text_def analysis_label_text_def x n)
qed

section \<open>The regressor and the channel importance\<close>

subsection \<open>Reading the layer at index 1\<close>

lemma names_upt: "[0..<length names] = [0, 1, 2, 3]"
  by (simp add: names_def upt_conv_Cons)

lemma length_abs_sum [simp]: "length (abs_sum_axes_0_2 k c f w) = c"
  by (simp add: abs_sum_axes_0_2_def)

text \<open>What the function returns when the layer at index 1 is a convolution.\<close>

lemma importance_conv:
  assumes "layers m = l0 # Conv1D f k c a p w b # rest"
  shows "compute_channel_importance m =
           (if c < 4 then Inl IndexError
            else Inr (zip names (map (\<lambda>v. np_divide v (sum_list (abs_sum_axes_0_2 k c f w)))
                                   (abs_sum_axes_0_2 k c f w))))"
proof -
  define A where "A = abs_sum_axes_0_2 k c f w"
  define N where "N = map (\<lambda>v. np_divide v (sum_list A)) A"
  have l: "length N = c" by (simp add: N_def A_def)
  have "compute_channel_importance m =
     comprehension (\<lambda>i. if i < length N then Inr (names ! i, N ! i) else Inl IndexError)
       [0..<length names]"
    unfolding compute_channel_importance_def assms N_def A_def Let_def
    by (simp only: list.case get_weights.simps ndarray.case)
  then have "compute_channel_importance m =
     comprehension (\<lambda>i. if i < length N then Inr (names ! i, N ! i) else Inl IndexError) [0, 1, 2, 3]"
    by (simp only: names_upt)
  also have "\<dots> = (if c < 4 then Inl IndexError else Inr (zip names N))"
  proof (cases "c < 4")
    case True
    then consider "c = 0" | "c = 1" | "c = 2" | "c = 3" by arith
    then show ?thesis by cases (simp_all add: l)
  next
    case False
    then have "Suc (Suc (Suc (Suc 0))) \<le> length N" using l by simp
    then obtain n0 n1 n2 n3 ns where N: "N = n0 # n1 # n2 # n3 # ns"
      by (auto simp: Suc_le_length_iff)
    have "\<not> length N < 4" using False l by simp
    then show ?thesis using False by (simp add: N names_def)
  qed
  finally show ?thesis by (simp add: N_def A_def)
qed

text \<open>
  Claim C9, as amended. \<open>compute_channel_importance\<close> never fails with \<open>ShapeMismatch\<close>
  and does not look for a convolution: it reads the layer at index 1. It fails with
  \<open>IndexError\<close> when the model has fewer than two layers, when that layer has no
  weights, and when that layer is a convolution with fewer than four input channels;
  it fails with \<open>AxisError\<close> when that layer is a dense layer, whose kernel has two
  axes; and for a convolution with four or more input channels it returns the weights
  of the first four channels under the four names, without an error.
\<close>

theorem importance_outcomes:
  "compute_channel_importance m \<noteq> Inl ShapeMismatch \<and>
   compute_channel_importance m =
     (case layers m of
        l0 # Conv1D f k c a p w b # rest \<Rightarrow>
          (if c < 4 then Inl IndexError
           else Inr (zip names (map (\<lambda>v. np_divide v (sum_list (abs_sum_axes_0_2 k c f w)))
                                  (abs_sum_axes_0_2 k c f w))))
      | l0 # Dense u c a w b # rest \<Rightarrow> Inl AxisError
      | _ \<Rightarrow> Inl IndexError)"
proof -
  have eq: "compute_channel_importance m =
     (case layers m of
        l0 # Conv1D f k c a p w b # rest \<Rightarrow>
          (if c < 4 then Inl IndexError
           else Inr (zip names (map (\<lambda>v. np_divide v (sum_list (abs_sum_axes_0_2 k c f w)))
                                  (abs_sum_axes_0_2 k c f w))))
      | l0 # Dense u c a w b # rest \<Rightarrow> Inl AxisError
      | _ \<Rightarrow> Inl IndexError)"
  proof (cases "layers m")
    case Nil
    then show ?thesis by (simp add: compute_channel_importance_def)
  next
    case (Cons l0 ls)
    show ?thesis
    proof (cases ls)
      case Nil
      then show ?thesis using Cons by (simp add: compute_channel_importance_def)
    next
      case (Cons l1 rest)
      then have l: "layers m = l0 # l1 # rest" using \<open>layers m = l0 # ls\<close> by simp
      show ?thesis
      proof (cases l1)
        case (Conv1D f k c a p w b)
        then show ?thesis using importance_conv[of m l0 f k c a p w b rest] l by simp
      qed (simp_all add: compute_channel_importance_def l)
    qed
  qed
  then have "compute_channel_importance m \<noteq> Inl ShapeMismatch"
    by (auto split: list.splits layer.splits if_splits)
  with eq show ?thesis by blast
qed

text \<open>
  Claim C9 as stated asks for a \<open>ShapeMismatch\<close> error on every model without a
  convolution of exactly four input channels. The model of \<open>build_sleep_cnn\<close> for five
  channels has none, and the function returns a mapping for it; a model that consists
  of an input layer only fails with \<open>IndexError\<close>, as does the model whose
  only convolution comes after a pooling layer.
\<close>

theorem five_channel_counterexample:
  "build_sleep_cnn 480 5 ones_weights =
     Inr \<lparr>layers =
        [InputLayer 480 5,
         Conv1D 32 5 5 Relu Same (conv1_kernel ones_weights) (\<lambda>_. 0),
         MaxPooling1D 2,
         Conv1D 64 5 32 Relu Same (conv2_kernel ones_weights) (\<lambda>_. 0),
         GlobalAveragePooling1D,
         Dense 1 64 Linear (dense_kernel ones_weights) (\<lambda>_. 0)]\<rparr> \<and>
   and_then (build_sleep_cnn 480 5 ones_weights) compute_channel_importance =
     Inr [(''heart_rate'', Finite (1 / 5)), (''hrv'', Finite (1 / 5)),
          (''spo2'', Finite (1 / 5)), (''wrist_temp'', Finite (1 / 5))] \<and>
   and_then (build_sleep_cnn 480 5 ones_weights) compute_channel_importance \<noteq> Inl ShapeMismatch \<and>
   compute_channel_importance pool_first_model = Inl IndexError \<and>
   compute_channel_importance \<lparr>layers = [InputLayer 480 3]\<rparr> = Inl IndexError"
proof -
  have a: "and_then (build_sleep_cnn 480 5 ones_weights) compute_channel_importance =
     Inr [(''heart_rate'', Finite (1 / 5)), (''hrv'', Finite (1 / 5)),
          (''spo2'', Finite (1 / 5)), (''wrist_temp'', Finite (1 / 5))]"
    by code_simp
  have b: "compute_channel_importance pool_first_model = Inl IndexError"
    "compute_channel_importance \<lparr>layers = [InputLayer 480 3]\<rparr> = Inl IndexError"
    by code_simp+
  show ?thesis using b by (simp add: a) (simp add: build_sleep_cnn_def)
qed

subsection \<open>The model of \<open>build_sleep_cnn\<close>\<close>

lemma build_sleep_cnn_Inr:
  assumes "build_sleep_cnn input_length channels init = Inr m"
  shows "2 \<le> input_length"
    and "layers m =
        [InputLayer input_length channels,
         Conv1D 32 5 channels Relu Same (conv1_kernel init) (\<lambda>_. 0),
         MaxPooling1D 2,
         Conv1D 64 5 32 Relu Same (conv2_kernel init) (\<lambda>_. 0),
         GlobalAveragePooling1D,
         Dense 1 64 Linear (dense_kernel init) (\<lambda>_. 0)]"
  using assms by (auto simp: build_sleep_cnn_def split: if_splits)

lemma test_cnn_built: "build_sleep_cnn 480 4 ones_weights = Inr test_cnn"
  by (simp add: test_cnn_def build_sleep_cnn_def)

text \<open>
  Claim C10. Every model that \<open>build_sleep_cnn\<close> returns for four channels has the input
  layer at index 0 and its first convolution at index 1, with a kernel of shape
  \<open>(5, 4, 32)\<close>, the first weight array of that layer; \<open>compute_channel_importance\<close>
  computes its result from exactly that kernel and returns a mapping whose keys are the
  four names heart_rate, hrv, spo2, wrist_temp.
\<close>

theorem built_model_importance:
  assumes "build_sleep_cnn input_length 4 init = Inr m"
  shows "let A = abs_sum_axes_0_2 5 4 32 (conv1_kernel init);
             result = zip names (map (\<lambda>v. np_divide v (sum_list A)) A)
         in layers m ! 0 = InputLayer input_length 4 \<and>
            layers m ! 1 = Conv1D 32 5 4 Relu Same (conv1_kernel init) (\<lambda>_. 0) \<and>
            get_weights (layers m ! 1) ! 0 = Arr3 5 4 32 (conv1_kernel init) \<and>
            compute_channel_importance m = Inr result \<and>
            map fst result = [''heart_rate'', ''hrv'', ''spo2'', ''wrist_temp'']"
proof -
  note l = build_sleep_cnn_Inr(2)[OF assms]
  have "compute_channel_importance m =
     Inr (zip names (map (\<lambda>v. np_divide v (sum_list (abs_sum_axes_0_2 5 4 32 (conv1_kernel init))))
                       (abs_sum_axes_0_2 5 4 32 (conv1_kernel init))))"
    using importance_conv[of m _ 32 5 4 Relu Same "conv1_kernel init" "\<lambda>_. 0"] l by simp
  moreover have "map fst (zip names (map (\<lambda>v. np_divide v (sum_list (abs_sum_axes_0_2 5 4 32 (conv1_kernel init))))
                       (abs_sum_axes_0_2 5 4 32 (conv1_kernel init)))) = names"
    by (simp add: names_def)
  ultimately show ?thesis by (simp add: Let_def l names_def)
qed

text \<open>
  The model of the test script, built for 480 samples.
\<close>

theorem built_model_importance_witness:
  "build_sleep_cnn 480 4 ones_weights = Inr test_cnn \<and>
   layers test_cnn ! 1 = Conv1D 32 5 4 Relu Same (conv1_kernel ones_weights) (\<lambda>_. 0) \<and>
   map_sum id (map fst) (compute_channel_importance test_cnn) =
     Inr [''heart_rate'', ''hrv'', ''spo2'', ''wrist_temp'']"
proof -
  from built_model_importance[OF test_cnn_built] show ?thesis
    by (simp add: Let_def test_cnn_built)
qed

end
